theory Spec2Isabelle
  imports Main "HOL-Library.Sublist"
begin

section \<open>The notification module of the Willie bot (modules/notifiy.py)\<close>

text \<open>
  The module keeps one database table with the columns pkey, nick, service and
  parameter, and sends a notification (a Pushover message or an email) for the rows
  whose nick occurs in a chat line.  It is a Python 2 module (it calls
  \<open>itertools.imap\<close>), run on SQLite: the table is created by line 83.

  Text is modelled as \<^typ>\<open>string\<close>, a list of characters; a character stands for a
  code point below 256.  A table is the list of its rows in the order in which the
  database returns them, the order of their keys; a new key is larger than every key
  of the table, so a new row comes last.  Calls into the pushover and smtplib libraries are recorded in a
  log in the order they are made; whether such a call returns or raises is decided by
  the environment.

  Every SQL statement of the module is a text into which the field values are pasted
  between quote characters.  The model gives the meaning of a statement when the pasted
  fields are plain text, so that the statement is the one the module's author wrote;
  for any other field the answer of the database to the text is left to the
  environment.
\<close>

subsection \<open>Text\<close>

text \<open>
  \<^verbatim>\<open>s.lower()\<close> on unicode text: the letters A to Z and the upper-case letters of
  Latin-1 (code points 192 to 222 without the multiplication sign 215) are moved up by
  32; every other code point below 256 stays.
\<close>

definition lower_char :: "char \<Rightarrow> char" where
  "lower_char c =
     (if ((65::nat) \<le> of_char c \<and> of_char c \<le> (90::nat)) \<or>
         ((192::nat) \<le> of_char c \<and> of_char c \<le> (222::nat) \<and> of_char c \<noteq> (215::nat))
      then char_of (of_char c + (32::nat)) else c)"

definition lower :: "string \<Rightarrow> string" where
  "lower s = map lower_char s"

text \<open>
  The letters a to z in upper case.  The module does not call it; it serves to say that
  the test for a mention does not see the case of these letters.
\<close>

definition upper_char :: "char \<Rightarrow> char" where
  "upper_char c =
     (if (97::nat) \<le> of_char c \<and> of_char c \<le> (122::nat)
      then char_of (of_char c - (32::nat)) else c)"

definition upper :: "string \<Rightarrow> string" where
  "upper s = map upper_char s"

text \<open>\<^verbatim>\<open>sub in s\<close> on two texts: \<open>sub\<close> starts at some position of \<open>s\<close>.\<close>

fun contains :: "string \<Rightarrow> string \<Rightarrow> bool" where
  "contains sub [] = (sub = [])"
| "contains sub (c # cs) = (prefix sub (c # cs) \<or> contains sub cs)"

text \<open>\<^verbatim>\<open>s.startswith('#')\<close>.\<close>

definition startswith_hash :: "string \<Rightarrow> bool" where
  "startswith_hash s = (case s of [] \<Rightarrow> False | c # _ \<Rightarrow> c = CHR ''#'')"

text \<open>\<^verbatim>\<open>s.split(' ')\<close>: every single space separates two fields.\<close>

fun split_space :: "string \<Rightarrow> string list" where
  "split_space [] = [[]]"
| "split_space (c # cs) =
     (if c = CHR '' '' then [] # split_space cs
      else (case split_space cs of
              [] \<Rightarrow> [[c]]
            | f # fs \<Rightarrow> (c # f) # fs))"

text \<open>\<^verbatim>\<open>str(n)\<close> on an integer: its decimal digits, with a sign when negative.\<close>

definition digit_char :: "nat \<Rightarrow> char" where
  "digit_char d = char_of (48 + d)"

function str_nat :: "nat \<Rightarrow> string" where
  "str_nat n = (if n < 10 then [digit_char n] else str_nat (n div 10) @ [digit_char (n mod 10)])"
  by pat_completeness auto
termination
  by (relation "measure id") auto

declare str_nat.simps [simp del]

definition str_int :: "int \<Rightarrow> string" where
  "str_int i = (if i < 0 then CHR ''-'' # str_nat (nat (- i)) else str_nat (nat i))"

text \<open>Text that \<open>str\<close> and \<open>str.format\<close> can encode: every code point is below 128.\<close>

definition ascii :: "string \<Rightarrow> bool" where
  "ascii s = list_all (\<lambda>c. (of_char c :: nat) < 128) s"

subsection \<open>Rows and errors\<close>

text \<open>
  The three text columns are declared with the type \<open>string\<close>, which gives them
  numeric affinity: a cell holds text, or a number when the text written to it was
  written like a number.  A number is given by the text that \<open>str\<close> prints for it.
\<close>

datatype cell = Text string | Number string

text \<open>A row of the table; the source reads it by position, \<open>row[0]\<close> to \<open>row[3]\<close>.\<close>

record row =
  pkey :: int
  nick :: cell
  service :: cell
  parameter :: cell

text \<open>
  \<open>DatabaseError\<close> stands for every exception of the database module, \<open>UnicodeError\<close>
  for UnicodeEncodeError, \<open>SendError\<close> for every exception raised inside the pushover,
  smtplib and email libraries.
\<close>

datatype error =
  NameError | ValueError | AttributeError | TypeError | UnicodeError | DatabaseError | SendError

text \<open>\<^verbatim>\<open>str(v)\<close> on a cell; on text it encodes to ASCII.\<close>

definition str_cell :: "cell \<Rightarrow> error + string" where
  "str_cell c =
     (case c of
        Text t \<Rightarrow> if ascii t then Inr t else Inl UnicodeError
      | Number x \<Rightarrow> Inr x)"

subsection \<open>The bot, the module's globals and the world\<close>

record mime =
  subject :: string
  sender_from :: string
  recipient_to :: string
  body :: string

text \<open>The calls the module makes into the notification libraries.\<close>

datatype call =
    Send_message cell string            \<comment> \<open>\<open>pushover.Client(row[3]).send_message(message)\<close>\<close>
  | Sendmail string "string list" mime  \<comment> \<open>\<open>SMTP.sendmail(from, [to], msg.as_string())\<close>\<close>

text \<open>
  The configuration the module reads from \<open>bot.config\<close>, and what the environment
  decides: \<open>sql_select\<close> and \<open>sql_insert\<close> are the answers of the database to the text
  of a SELECT and of an INSERT into which a field that is not plain text was pasted
  (the rows selected, the table after the INSERT, or an exception); \<open>call_ok\<close> says
  whether a library call returns normally, given the calls made before it.
\<close>

record bot =
  core_nick :: string
  email_address :: string
  pushover_app_api :: "string option"
  table_name :: string
  sql_select :: "string \<Rightarrow> row list \<Rightarrow> error + row list"
  sql_insert :: "string \<Rightarrow> row list \<Rightarrow> error + row list"
  call_ok :: "call list \<Rightarrow> call \<Rightarrow> bool"

text \<open>
  The module's globals: \<open>pushover_mod\<close> says that \<open>import pushover\<close> succeeded, so
  that the name \<open>pushover\<close> is bound (to a module object); \<open>PUSHOVER\<close> is the flag.
\<close>

record globals =
  pushover_mod :: bool
  PUSHOVER :: bool

text \<open>The table, the library calls made so far, and the lines the bot has said.\<close>

record world =
  table :: "row list"
  calls :: "call list"
  said :: "string list"

record trigger =
  sender :: string
  admin :: bool
  group2 :: "string option"   \<comment> \<open>\<open>trigger.group(2)\<close>, \<open>None\<close> when the command has no argument\<close>

type_synonym 'a result = "(error + 'a) \<times> world"

subsection \<open>The SQL statements\<close>

text \<open>
  Plain text: printable ASCII without the quote character, with at least one character
  that cannot stand in a number (a digit, a sign, a point, an exponent letter or a
  space).  Between two quote characters such a text is one SQL string, and a column
  with numeric affinity keeps it, and compares it, as text.
\<close>

definition plain_char :: "char \<Rightarrow> bool" where
  "plain_char c = ((32::nat) \<le> of_char c \<and> of_char c < (127::nat) \<and> of_char c \<noteq> (39::nat))"

definition number_char :: "char \<Rightarrow> bool" where
  "number_char c = (c \<in> set ''0123456789+-.eE '')"

definition plain :: "string \<Rightarrow> bool" where
  "plain s = (list_all plain_char s \<and> list_ex (\<lambda>c. \<not> number_char c) s)"

text \<open>The keys the table can hold: pkey is its INTEGER PRIMARY KEY, a signed 64-bit value.\<close>

definition key64 :: "int \<Rightarrow> bool" where
  "key64 k = (- (2 ^ 63) \<le> k \<and> k \<le> 2 ^ 63 - 1)"

text \<open>The texts of the statements, as lines 232, 192 and 149 format them.\<close>

definition quoted :: "string \<Rightarrow> string" where
  "quoted s = [CHR 0x27] @ s @ [CHR 0x27]"

definition select_nick_text :: "string \<Rightarrow> string \<Rightarrow> string" where
  "select_nick_text tn n = ''SELECT * FROM '' @ tn @ '' WHERE nick='' @ quoted n"

definition select_entry_text :: "string \<Rightarrow> string \<Rightarrow> string \<Rightarrow> string \<Rightarrow> string" where
  "select_entry_text tn n s p =
     ''SELECT * FROM '' @ tn @ '' WHERE nick='' @ quoted n @ '' AND service='' @ quoted s @
     '' AND parameter='' @ quoted p"

definition insert_text :: "string \<Rightarrow> int \<Rightarrow> string \<Rightarrow> string \<Rightarrow> string \<Rightarrow> string" where
  "insert_text tn k n s p =
     ''INSERT INTO '' @ tn @ '' VALUES ('' @ str_int k @ '','' @ quoted n @ '','' @ quoted s @
     '','' @ quoted p @ '')''"

text \<open>\<^verbatim>\<open>SELECT * FROM t WHERE nick='n'\<close> (line 232)\<close>

definition select_nick :: "bot \<Rightarrow> row list \<Rightarrow> string \<Rightarrow> error + row list" where
  "select_nick b tbl n =
     (if plain n then Inr (filter (\<lambda>r. nick r = Text n) tbl)
      else sql_select b (select_nick_text (table_name b) n) tbl)"

text \<open>\<^verbatim>\<open>SELECT * FROM t WHERE nick='n' AND service='s' AND parameter='p'\<close> (line 192)\<close>

definition select_entry ::
  "bot \<Rightarrow> row list \<Rightarrow> string \<Rightarrow> string \<Rightarrow> string \<Rightarrow> error + row list" where
  "select_entry b tbl n s p =
     (if plain n \<and> plain s \<and> plain p
      then Inr (filter (\<lambda>r. nick r = Text n \<and> service r = Text s \<and> parameter r = Text p) tbl)
      else sql_select b (select_entry_text (table_name b) n s p) tbl)"

text \<open>\<^verbatim>\<open>DELETE FROM t WHERE pkey=k\<close> (line 195); the key pasted is an integer.\<close>

definition delete_pkey :: "row list \<Rightarrow> int \<Rightarrow> row list" where
  "delete_pkey tbl k = filter (\<lambda>r. pkey r \<noteq> k) tbl"

text \<open>
  \<^verbatim>\<open>INSERT INTO t VALUES (k,'n','s','p')\<close> (line 149): a key that is already in the
  table, or that is no 64-bit value, is refused.
\<close>

definition insert_row ::
  "bot \<Rightarrow> row list \<Rightarrow> int \<Rightarrow> string \<Rightarrow> string \<Rightarrow> string \<Rightarrow> error + row list" where
  "insert_row b tbl k n s p =
     (if plain n \<and> plain s \<and> plain p
      then (if key64 k \<and> k \<notin> set (map pkey tbl)
            then Inr (tbl @ [\<lparr>pkey = k, nick = Text n, service = Text s, parameter = Text p\<rparr>])
            else Inl DatabaseError)
      else sql_insert b (insert_text (table_name b) k n s p) tbl)"

text \<open>
  \<open>notifydb.keys(key=c)\<close> of the bot's database layer: the column \<open>c\<close> of the table, one
  entry for each row; the module reads each entry with \<open>ent[0]\<close>.
\<close>

definition keys_pkey :: "row list \<Rightarrow> int list" where
  "keys_pkey tbl = map pkey tbl"

definition keys_nick :: "row list \<Rightarrow> cell list" where
  "keys_nick tbl = map nick tbl"

subsection \<open>Module setup\<close>

text \<open>
  The import at the top of the module binds \<open>pushover\<close> and sets the flag, or sets
  the flag to \<open>False\<close> when the library is missing.
\<close>

definition import_globals :: "bool \<Rightarrow> globals" where
  "import_globals found = \<lparr>pushover_mod = found, PUSHOVER = found\<rparr>"

text \<open>The truth value of a configuration value: \<open>None\<close> and the empty text are false.\<close>

definition truthy :: "string option \<Rightarrow> bool" where
  "truthy v = (case v of None \<Rightarrow> False | Some s \<Rightarrow> s \<noteq> [])"

text \<open>
  The part of the module's \<open>setup(bot)\<close> that decides the flag (lines 58 to 63).
  The second test, \<open>app_api is not 'none'\<close>, compares object identity with a literal
  and holds for a value read from the configuration file.  The email part of the
  function opens the SMTP session, which here belongs to the environment.
\<close>

definition module_setup :: "bot \<Rightarrow> globals \<Rightarrow> globals" where
  "module_setup b g =
     (if PUSHOVER g
      then (if truthy (pushover_app_api b) then g else g\<lparr>PUSHOVER := False\<rparr>)
      else g)"

subsection \<open>Notification functions\<close>

text \<open>A library call: it is logged, and raises when the environment says so.\<close>

definition library_call :: "bot \<Rightarrow> call \<Rightarrow> world \<Rightarrow> unit result" where
  "library_call b c w =
     (if call_ok b (calls w) c then Inr () else Inl SendError, w\<lparr>calls := calls w @ [c]\<rparr>)"

text \<open>
  \<open>notify_pushover\<close> tests the name \<open>pushover\<close>, not the flag.  Reading the name
  raises NameError when the import failed; a module object is true, so the branch
  that raises ValueError is never taken.
\<close>

definition notify_pushover :: "globals \<Rightarrow> bot \<Rightarrow> row \<Rightarrow> string \<Rightarrow> world \<Rightarrow> unit result" where
  "notify_pushover g b r message w =
     (if \<not> pushover_mod g then (Inl NameError, w)
      else library_call b (Send_message (parameter r) message) w)"

definition build_email :: "bot \<Rightarrow> string \<Rightarrow> string \<Rightarrow> mime" where
  "build_email b p message =
     \<lparr>subject = ''['' @ core_nick b @ ''] '' @ take 20 message @ ''...'',
      sender_from = email_address b,
      recipient_to = p,
      body = message\<rparr>"

text \<open>
  \<open>notify_email\<close>.  When \<open>row[3]\<close> is a number, the header \<open>To\<close> holds a number and
  \<open>msg.as_string()\<close>, an argument of the call of \<open>sendmail\<close>, raises before the call
  is made.
\<close>

definition notify_email :: "globals \<Rightarrow> bot \<Rightarrow> row \<Rightarrow> string \<Rightarrow> world \<Rightarrow> unit result" where
  "notify_email g b r message w =
     (case parameter r of
        Number x \<Rightarrow> (Inl SendError, w)
      | Text p \<Rightarrow> library_call b (Sendmail (email_address b) [p] (build_email b p message)) w)"

text \<open>The dictionary \<open>SERVICES\<close>; a number is no key of it.\<close>

definition SERVICES ::
  "cell \<Rightarrow> (globals \<Rightarrow> bot \<Rightarrow> row \<Rightarrow> string \<Rightarrow> world \<Rightarrow> unit result) option" where
  "SERVICES c =
     (case c of
        Number x \<Rightarrow> None
      | Text s \<Rightarrow>
          (if s = ''pushover'' then Some notify_pushover
           else if s = ''email'' then Some notify_email
           else None))"

subsection \<open>Database functions\<close>

text \<open>\<^verbatim>\<open>max(pkeys)\<close> on a list that is not empty.\<close>

fun max_list :: "int list \<Rightarrow> int" where
  "max_list [] = 0"
| "max_list (k # ks) = fold max ks k"

definition get_new_pkey :: "row list \<Rightarrow> int" where
  "get_new_pkey tbl =
     (let pkeys = keys_pkey tbl in if pkeys = [] then 1 else max_list pkeys + 1)"

text \<open>\<open>add_new_notify\<close>: the INSERT is committed when it has not raised.\<close>

definition add_new_notify ::
  "bot \<Rightarrow> row list \<Rightarrow> int \<Rightarrow> string \<Rightarrow> string \<Rightarrow> string \<Rightarrow> error + row list" where
  "add_new_notify b tbl k n s p = insert_row b tbl k n s p"

subsection \<open>Commands\<close>

text \<open>
  \<open>add_entry\<close> is \<open>add_notification\<close> after its guards, on the three fields of the
  command (lines 168 to 172).  It returns the key it has written.  The reply is
  formatted after the commit, and the formatting raises for text that is not ASCII.
\<close>

definition add_entry :: "bot \<Rightarrow> string \<Rightarrow> string \<Rightarrow> string \<Rightarrow> world \<Rightarrow> int result" where
  "add_entry b n s p w =
     (let k = get_new_pkey (table w) in
      case add_new_notify b (table w) k n s p of
        Inl e \<Rightarrow> (Inl e, w)
      | Inr tbl' \<Rightarrow>
          (if ascii n \<and> ascii s \<and> ascii p
           then (Inr k,
                 w\<lparr>table := tbl',
                   said := said w @
                     [''We will now notify '' @ quoted n @ '' using '' @ quoted s @
                      '' with '' @ quoted p]\<rparr>)
           else (Inl UnicodeError, w\<lparr>table := tbl'\<rparr>)))"

definition add_notification :: "bot \<Rightarrow> trigger \<Rightarrow> world \<Rightarrow> unit result" where
  "add_notification b t w =
     (if startswith_hash (sender t) then (Inr (), w)
      else if \<not> admin t then (Inr (), w)
      else (case group2 t of
              None \<Rightarrow> (Inl AttributeError, w)
            | Some args \<Rightarrow>
                (case split_space args of
                   [n, s, p] \<Rightarrow>
                     (case add_entry b n s p w of
                        (Inl e, w') \<Rightarrow> (Inl e, w')
                      | (Inr k, w') \<Rightarrow> (Inr (), w'))
                 | _ \<Rightarrow> (Inl ValueError, w))))"

text \<open>\<^verbatim>\<open>' | '.join(itertools.imap(str, row))\<close>\<close>

definition show_row :: "row \<Rightarrow> error + string" where
  "show_row r =
     (case str_cell (nick r) of
        Inl e \<Rightarrow> Inl e
      | Inr n \<Rightarrow>
          (case str_cell (service r) of
             Inl e \<Rightarrow> Inl e
           | Inr s \<Rightarrow>
               (case str_cell (parameter r) of
                  Inl e \<Rightarrow> Inl e
                | Inr p \<Rightarrow> Inr (str_int (pkey r) @ '' | '' @ n @ '' | '' @ s @ '' | '' @ p))))"

text \<open>
  The loop of \<open>remove_notification\<close> over the selected rows (lines 193 to 195): a reply,
  then the DELETE of the row's key.  An exception leaves the loop.
\<close>

fun remove_rows :: "row list \<Rightarrow> world \<Rightarrow> unit result" where
  "remove_rows [] w = (Inr (), w)"
| "remove_rows (r # rs) w =
     (case show_row r of
        Inl e \<Rightarrow> (Inl e, w)
      | Inr line \<Rightarrow>
          remove_rows rs
            (w\<lparr>said := said w @ [''Removing '' @ line],
               table := delete_pkey (table w) (pkey r)\<rparr>))"

text \<open>
  \<open>remove_notification\<close> after its guards (lines 189 to 196).  The commit is the last
  statement: when the SELECT or the loop raises, no DELETE is committed and the table
  is the one before the command.
\<close>

definition remove_entry :: "bot \<Rightarrow> string \<Rightarrow> string \<Rightarrow> string \<Rightarrow> world \<Rightarrow> unit result" where
  "remove_entry b n s p w =
     (case select_entry b (table w) n s p of
        Inl e \<Rightarrow> (Inl e, w)
      | Inr rows \<Rightarrow>
          (case remove_rows rows w of
             (Inl e, w') \<Rightarrow> (Inl e, w'\<lparr>table := table w\<rparr>)
           | (Inr u, w') \<Rightarrow> (Inr (), w')))"

definition remove_notification :: "bot \<Rightarrow> trigger \<Rightarrow> world \<Rightarrow> unit result" where
  "remove_notification b t w =
     (if startswith_hash (sender t) then (Inr (), w)
      else if \<not> admin t then (Inr (), w)
      else (case group2 t of
              None \<Rightarrow> (Inl AttributeError, w)
            | Some args \<Rightarrow>
                (case split_space args of
                   [n, s, p] \<Rightarrow> remove_entry b n s p w
                 | _ \<Rightarrow> (Inl ValueError, w))))"

subsection \<open>Listener and notification dispatcher\<close>

text \<open>The body of the inner loop of \<open>nick_detect\<close> (lines 234 to 236).\<close>

definition dispatch :: "globals \<Rightarrow> bot \<Rightarrow> string \<Rightarrow> row \<Rightarrow> world \<Rightarrow> unit result" where
  "dispatch g b message r w =
     (case SERVICES (service r) of
        None \<Rightarrow> (Inr (), w)
      | Some func \<Rightarrow> func g b r message w)"

text \<open>The inner loop, over the rows selected for one nick.  An exception leaves it.\<close>

fun dispatch_rows :: "globals \<Rightarrow> bot \<Rightarrow> string \<Rightarrow> row list \<Rightarrow> world \<Rightarrow> unit result" where
  "dispatch_rows g b message [] w = (Inr (), w)"
| "dispatch_rows g b message (r # rs) w =
     (case dispatch g b message r w of
        (Inl e, w') \<Rightarrow> (Inl e, w')
      | (Inr u, w') \<Rightarrow> dispatch_rows g b message rs w')"

text \<open>The test of line 231, on a nick that is text.\<close>

definition mentions :: "string \<Rightarrow> string \<Rightarrow> bool" where
  "mentions n message = contains (lower n) (lower message)"

text \<open>
  The outer loop, over the listed nicks.  A nick that is a number has no method
  \<open>lower\<close>: the test raises AttributeError.  An exception leaves the loop.
\<close>

fun nick_loop :: "globals \<Rightarrow> bot \<Rightarrow> string \<Rightarrow> cell list \<Rightarrow> world \<Rightarrow> unit result" where
  "nick_loop g b message [] w = (Inr (), w)"
| "nick_loop g b message (Number x # cs) w = (Inl AttributeError, w)"
| "nick_loop g b message (Text n # cs) w =
     (if mentions n message
      then (case select_nick b (table w) n of
              Inl e \<Rightarrow> (Inl e, w)
            | Inr rows \<Rightarrow>
                (case dispatch_rows g b message rows w of
                   (Inl e, w') \<Rightarrow> (Inl e, w')
                 | (Inr u, w') \<Rightarrow> nick_loop g b message cs w'))
      else nick_loop g b message cs w)"

definition nick_detect :: "globals \<Rightarrow> bot \<Rightarrow> string \<Rightarrow> world \<Rightarrow> unit result" where
  "nick_detect g b message w = nick_loop g b message (keys_nick (table w)) w"

subsection \<open>Sequences of commands\<close>

text \<open>
  Additions made one after the other, each on the table the one before has left; the
  result lists what each of them returns, the key it has written or its exception.
\<close>

fun add_all ::
  "bot \<Rightarrow> (string \<times> string \<times> string) list \<Rightarrow> world \<Rightarrow> (error + int) list \<times> world" where
  "add_all b [] w = ([], w)"
| "add_all b ((n, s, p) # xs) w =
     (case add_entry b n s p w of
        (x, w') \<Rightarrow> (case add_all b xs w' of (ys, w'') \<Rightarrow> (x # ys, w'')))"

text \<open>The keys written, among the results of a sequence.\<close>

fun assigned :: "(error + int) list \<Rightarrow> int list" where
  "assigned [] = []"
| "assigned (Inl e # xs) = assigned xs"
| "assigned (Inr k # xs) = k # assigned xs"

text \<open>Additions and removals in any order; the result lists what the additions return.\<close>

datatype command = Add string string string | Remove string string string

fun plain_command :: "command \<Rightarrow> bool" where
  "plain_command (Add n s p) = (plain n \<and> plain s \<and> plain p)"
| "plain_command (Remove n s p) = (plain n \<and> plain s \<and> plain p)"

fun run :: "bot \<Rightarrow> command list \<Rightarrow> world \<Rightarrow> (error + int) list \<times> world" where
  "run b [] w = ([], w)"
| "run b (Add n s p # cs) w =
     (case add_entry b n s p w of
        (x, w') \<Rightarrow> (case run b cs w' of (ys, w'') \<Rightarrow> (x # ys, w'')))"
| "run b (Remove n s p # cs) w = run b cs (snd (remove_entry b n s p w))"

subsection \<open>Example data\<close>

text \<open>
  A bot whose library calls all return and whose database answers with an exception
  every statement text that the model leaves to it (the examples with this bot paste
  plain fields only); the same bot with a first library call that raises;
  the same bot without a Pushover application token; and the same bot with a database
  that answers two SELECT texts, into which the parameter \<open>x'OR'1'='1\<close> is pasted, as
  SQLite does: the text ends with \<open>parameter='x'OR'1'='1'\<close>, AND binds more strongly
  than OR, and \<open>'1'='1'\<close> is true, so every row of the table is selected.
\<close>

definition ex_bot :: bot where
  "ex_bot =
     \<lparr>core_nick = ''willie'', email_address = ''willie@example.com'',
      pushover_app_api = Some ''apptoken'',
      table_name = ''notifydb'',
      sql_select = (\<lambda>text tbl. Inl DatabaseError),
      sql_insert = (\<lambda>text tbl. Inl DatabaseError),
      call_ok = (\<lambda>h c. True)\<rparr>"

definition ex_flaky_bot :: bot where
  "ex_flaky_bot = ex_bot\<lparr>call_ok := (\<lambda>h c. h \<noteq> [])\<rparr>"

definition ex_unconfigured_bot :: bot where
  "ex_unconfigured_bot = ex_bot\<lparr>pushover_app_api := None\<rparr>"

definition ex_injection :: string where
  "ex_injection = ''x'' @ [CHR 0x27] @ ''OR'' @ [CHR 0x27] @ ''1'' @ [CHR 0x27] @ ''='' @ [CHR 0x27] @ ''1''"

definition ex_injection_bot :: bot where
  "ex_injection_bot =
     ex_bot\<lparr>sql_select :=
       (\<lambda>text tbl.
          if text = select_entry_text ''notifydb'' ''bob'' ''email'' ex_injection \<or>
             text = select_entry_text ''notifydb'' ''carol'' ''email'' ex_injection
          then Inr tbl else Inl DatabaseError)\<rparr>"

text \<open>
  The same bot with a database that answers one INSERT text as SQLite (from version
  3.24) does.  The parameter pasted closes the first row, adds a second row with the
  same key 2 and an upsert clause for the conflict of the two, which moves the row
  just inserted to the key 0; the rest of the text is a comment.  The table then holds
  the old rows and the row \<open>(0, 'bob', 'email', 'x')\<close>.
\<close>

definition ex_upsert :: string where
  "ex_upsert = ''x'),(2,'y','z','w')ON/**/CONFLICT(pkey)DO/**/UPDATE/**/SET/**/pkey=0--''"

definition ex_upsert_bot :: bot where
  "ex_upsert_bot =
     ex_bot\<lparr>sql_insert :=
       (\<lambda>text tbl.
          if text = insert_text ''notifydb'' 2 ''bob'' ''email'' ex_upsert
          then Inr (\<lparr>pkey = 0, nick = Text ''bob'', service = Text ''email'',
                      parameter = Text ''x''\<rparr> # tbl)
          else Inl DatabaseError)\<rparr>"

text \<open>Some small worlds; the last holds the largest key a table can hold.\<close>

definition ex_empty :: world where
  "ex_empty = \<lparr>table = [], calls = [], said = []\<rparr>"

definition ex_world :: world where
  "ex_world =
     \<lparr>table =
        [\<lparr>pkey = 1, nick = Text ''alice'', service = Text ''email'',
          parameter = Text ''alice@example.com''\<rparr>,
         \<lparr>pkey = 2, nick = Text ''cadair'', service = Text ''pushover'',
          parameter = Text ''usertoken''\<rparr>],
      calls = [], said = []\<rparr>"

definition ex_bob_world :: world where
  "ex_bob_world =
     \<lparr>table =
        [\<lparr>pkey = 1, nick = Text ''bob'', service = Text ''email'',
          parameter = Text ''bob@example.com''\<rparr>,
         \<lparr>pkey = 2, nick = Text ''bob'', service = Text ''email'',
          parameter = Text ''bob@example.org''\<rparr>],
      calls = [], said = []\<rparr>"

definition ex_mixed_world :: world where
  "ex_mixed_world =
     \<lparr>table =
        [\<lparr>pkey = 1, nick = Text ''bob'', service = Text ''email'',
          parameter = Text ''bob@example.com''\<rparr>,
         \<lparr>pkey = 2, nick = Text ''bob'', service = Text ''sms'',
          parameter = Text ''sms-gateway''\<rparr>],
      calls = [], said = []\<rparr>"

definition ex_one_world :: world where
  "ex_one_world =
     \<lparr>table =
        [\<lparr>pkey = 1, nick = Text ''bob'', service = Text ''email'',
          parameter = Text ''bob@example.com''\<rparr>],
      calls = [], said = []\<rparr>"

definition ex_full_world :: world where
  "ex_full_world =
     \<lparr>table =
        [\<lparr>pkey = 9223372036854775807, nick = Text ''alice'', service = Text ''email'',
          parameter = Text ''alice@example.com''\<rparr>],
      calls = [], said = []\<rparr>"

section \<open>Properties\<close>

subsection \<open>The listener only reads the table\<close>

lemma library_call_frame:
  "table (snd (library_call b c w)) = table w \<and> said (snd (library_call b c w)) = said w"
  by (simp add: library_call_def)

lemma dispatch_frame:
  "table (snd (dispatch g b m r w)) = table w \<and> said (snd (dispatch g b m r w)) = said w"
  by (simp add: dispatch_def SERVICES_def notify_pushover_def notify_email_def library_call_frame
           split: cell.splits)

lemma dispatch_rows_frame:
  "table (snd (dispatch_rows g b m rs w)) = table w \<and>
   said (snd (dispatch_rows g b m rs w)) = said w"
proof (induction rs arbitrary: w)
  case Nil
  show ?case by simp
next
  case (Cons r rs)
  obtain x w1 where d: "dispatch g b m r w = (x, w1)" by (cases "dispatch g b m r w")
  from dispatch_frame [of g b m r w] d have f: "table w1 = table w" "said w1 = said w"
    by simp_all
  show ?case
  proof (cases x)
    case (Inl e)
    with d f show ?thesis by simp
  next
    case (Inr u)
    with d f Cons.IH [of w1] show ?thesis by simp
  qed
qed

lemma nick_loop_frame:
  "table (snd (nick_loop g b m cs w)) = table w \<and> said (snd (nick_loop g b m cs w)) = said w"
proof (induction cs arbitrary: w)
  case Nil
  show ?case by simp
next
  case (Cons c cs)
  show ?case
  proof (cases c)
    case (Number x)
    then show ?thesis by simp
  next
    case (Text n)
    show ?thesis
    proof (cases "mentions n m")
      case False
      with Text Cons.IH [of w] show ?thesis by simp
    next
      case True
      show ?thesis
      proof (cases "select_nick b (table w) n")
        case (Inl e)
        with Text True show ?thesis by simp
      next
        case (Inr rows)
        obtain x w1 where d: "dispatch_rows g b m rows w = (x, w1)"
          by (cases "dispatch_rows g b m rows w")
        from dispatch_rows_frame [of g b m rows w] d
        have f: "table w1 = table w" "said w1 = said w" by simp_all
        show ?thesis
        proof (cases x)
          case (Inl e)
          with Text True Inr d f show ?thesis by simp
        next
          case (Inr u)
          with Text True \<open>select_nick b (table w) n = Inr rows\<close> d f Cons.IH [of w1]
          show ?thesis by simp
        qed
      qed
    qed
  qed
qed

text \<open>
  Claim C10.  Handling a chat line never changes the table: for every table and every
  message, the table after \<open>nick_detect\<close> is the table before it, whether the run ends
  normally or with an exception.  (The lines the bot has said are unchanged as well.)
\<close>

theorem nick_detect_reads_only:
  "table (snd (nick_detect g b message w)) = table w \<and>
   said (snd (nick_detect g b message w)) = said w"
  by (simp add: nick_detect_def nick_loop_frame)

subsection \<open>Loops over a list that is a concatenation\<close>

lemma nick_loop_append:
  "nick_loop g b m (cs1 @ cs2) w =
     (case nick_loop g b m cs1 w of
        (Inl e, w') \<Rightarrow> (Inl e, w')
      | (Inr u, w') \<Rightarrow> nick_loop g b m cs2 w')"
proof (induction cs1 arbitrary: w)
  case Nil
  show ?case by simp
next
  case (Cons c cs1)
  show ?case
  proof (cases c)
    case (Number x)
    then show ?thesis by simp
  next
    case (Text n)
    with Cons.IH show ?thesis
      by (simp split: prod.splits sum.splits)
  qed
qed

lemma dispatch_rows_append:
  "dispatch_rows g b m (rs1 @ rs2) w =
     (case dispatch_rows g b m rs1 w of
        (Inl e, w') \<Rightarrow> (Inl e, w')
      | (Inr u, w') \<Rightarrow> dispatch_rows g b m rs2 w')"
  by (induction rs1 arbitrary: w) (auto split: prod.splits sum.splits)

subsection \<open>The test for a mention\<close>

lemma contains_iff: "contains sub s \<longleftrightarrow> (\<exists>ps ss. s = ps @ sub @ ss)"
proof (induction s)
  case Nil
  then show ?case by auto
next
  case (Cons c cs)
  show ?case
  proof
    assume "contains sub (c # cs)"
    then consider "prefix sub (c # cs)" | "contains sub cs" by auto
    then show "\<exists>ps ss. c # cs = ps @ sub @ ss"
    proof cases
      case 1
      then obtain ss where "c # cs = sub @ ss" by (auto simp: prefix_def)
      then have "c # cs = [] @ sub @ ss" by simp
      then show ?thesis by blast
    next
      case 2
      with Cons.IH obtain ps ss where "cs = ps @ sub @ ss" by blast
      then have "c # cs = (c # ps) @ sub @ ss" by simp
      then show ?thesis by blast
    qed
  next
    assume "\<exists>ps ss. c # cs = ps @ sub @ ss"
    then obtain ps ss where eq: "c # cs = ps @ sub @ ss" by blast
    show "contains sub (c # cs)"
    proof (cases ps)
      case Nil
      with eq have "prefix sub (c # cs)" by (simp add: prefix_def)
      then show ?thesis by simp
    next
      case (Cons p ps')
      with eq have "cs = ps' @ sub @ ss" by simp
      with Cons.IH have "contains sub cs" by blast
      then show ?thesis by simp
    qed
  qed
qed

lemma mentions_iff: "mentions n m \<longleftrightarrow> (\<exists>ps ss. lower m = ps @ lower n @ ss)"
  by (simp add: mentions_def contains_iff)

lemma lower_upper_char: "lower_char (upper_char c) = lower_char c"
proof (cases "(97::nat) \<le> of_char c \<and> of_char c \<le> (122::nat)")
  case False
  then have "upper_char c = c" by (auto simp: upper_char_def)
  then show ?thesis by simp
next
  case True
  then have u: "upper_char c = char_of (of_char c - (32::nat))"
    by (simp add: upper_char_def)
  from True have "(of_char c :: nat) - 32 < 256" by arith
  then have v: "of_char (char_of (of_char c - (32::nat))) = (of_char c - 32 :: nat)"
    by (simp only: of_char_of mod_less)
  from True have r: "(65::nat) \<le> of_char c - 32 \<and> of_char c - 32 \<le> (90::nat)" by arith
  have l: "lower_char (char_of (of_char c - (32::nat))) = char_of (of_char c - (32::nat) + 32)"
    unfolding lower_char_def v using r by simp
  from True have "of_char c - (32::nat) + 32 = of_char c" by arith
  with l have "lower_char (upper_char c) = c" using u by simp
  moreover from True have "lower_char c = c" by (simp add: lower_char_def)
  ultimately show ?thesis by simp
qed

lemma lower_upper: "lower (upper s) = lower s"
  by (simp add: lower_def upper_def lower_upper_char)

lemma mentions_upper:
  "mentions (upper n) m = mentions n m \<and> mentions n (upper m) = mentions n m"
  by (simp add: mentions_def lower_upper)

lemma number_nick_raises:
  "nick_loop g b m (Number x # cs) w = (Inl AttributeError, w)"
  by simp

text \<open>
  Claim C1 says that for every registered nick and every message the rows of the nick
  are dispatched exactly when the lower-cased message contains the lower-cased nick.
  The loops have no handler: with ``alice'' listed before ``cadair'' and a library call
  that raises, the line ``alice and cadair'' mentions ``cadair'', and the listener ends
  in the dispatch for ``alice'' without dispatching the row of ``cadair''.
\<close>

theorem later_nick_not_dispatched_counterexample:
  "keys_nick (table ex_world) = [Text ''alice'', Text ''cadair''] \<and>
   mentions ''cadair'' ''alice and cadair'' \<and>
   nick_detect (import_globals True) ex_flaky_bot ''alice and cadair'' ex_world =
     (Inl SendError,
      ex_world\<lparr>calls := [Sendmail ''willie@example.com'' [''alice@example.com'']
         \<lparr>subject = ''[willie] alice and cadair...'', sender_from = ''willie@example.com'',
          recipient_to = ''alice@example.com'', body = ''alice and cadair''\<rparr>]\<rparr>)"
  by code_simp

text \<open>
  Claim C1, as amended.  The test for a mention ignores case and looks for the nick
  anywhere in the line: for a nick \<open>n\<close> that is text, \<open>mentions n m\<close> holds exactly when
  the lower-cased line is some text, then the lower-cased nick, then some text, and it
  is the same for \<open>n\<close> and \<open>m\<close> written in upper case.  For every listed nick \<open>n\<close> that
  is plain text, once the loop has passed the nicks listed before it without an
  exception, \<open>nick_detect\<close> dispatches the rows whose nick is \<open>n\<close> and goes on
  exactly when the test holds, and goes on without dispatching them otherwise.
\<close>

theorem mention_is_substring:
  assumes k: "keys_nick (table w) = pre @ Text n # post"
      and p: "nick_loop g b m pre w = (Inr (), w1)"
      and pl: "plain n"
  shows "(mentions n m \<longleftrightarrow> (\<exists>ps ss. lower m = ps @ lower n @ ss)) \<and>
         mentions (upper n) m = mentions n m \<and>
         mentions n (upper m) = mentions n m \<and>
         nick_detect g b m w =
           (if \<exists>ps ss. lower m = ps @ lower n @ ss
            then (case dispatch_rows g b m (filter (\<lambda>r. nick r = Text n) (table w)) w1 of
                    (Inl e, w') \<Rightarrow> (Inl e, w')
                  | (Inr u, w') \<Rightarrow> nick_loop g b m post w')
            else nick_loop g b m post w1)"
proof -
  from nick_loop_frame [of g b m pre w] p have t: "table w1 = table w" by simp
  have s: "select_nick b (table w1) n = Inr (filter (\<lambda>r. nick r = Text n) (table w))"
    using pl t by (simp add: select_nick_def)
  have "nick_detect g b m w = nick_loop g b m (Text n # post) w1"
    using k p by (simp add: nick_detect_def nick_loop_append)
  then have "nick_detect g b m w =
           (if \<exists>ps ss. lower m = ps @ lower n @ ss
            then (case dispatch_rows g b m (filter (\<lambda>r. nick r = Text n) (table w)) w1 of
                    (Inl e, w') \<Rightarrow> (Inl e, w')
                  | (Inr u, w') \<Rightarrow> nick_loop g b m post w')
            else nick_loop g b m post w1)"
    using s by (simp add: mentions_iff)
  then show ?thesis
    using mentions_iff [of n m] mentions_upper [of n m] by blast
qed

text \<open>
  The theorem at the line ``cadairable thing'', with the nick ``cadair'' listed second:
  the nick is found inside a longer word, and in upper case in another line.
\<close>

theorem mention_is_substring_witness:
  "keys_nick (table ex_world) = [Text ''alice''] @ Text ''cadair'' # [] \<and>
   nick_loop (import_globals True) ex_bot ''cadairable thing'' [Text ''alice''] ex_world =
     (Inr (), ex_world) \<and>
   plain ''cadair'' \<and>
   mentions ''cadair'' ''cadairable thing'' \<and>
   mentions ''cadair'' ''Hey CADAIR, you there?'' \<and>
   nick_detect (import_globals True) ex_bot ''cadairable thing'' ex_world =
     (Inr (), ex_world\<lparr>calls := [Send_message (Text ''usertoken'') ''cadairable thing'']\<rparr>)"
proof -
  let ?g = "import_globals True"
  have k: "keys_nick (table ex_world) = [Text ''alice''] @ Text ''cadair'' # []" by code_simp
  have p: "nick_loop ?g ex_bot ''cadairable thing'' [Text ''alice''] ex_world = (Inr (), ex_world)"
    by code_simp
  have pl: "plain ''cadair''" by code_simp
  have m2: "mentions ''cadair'' ''Hey CADAIR, you there?''" by code_simp
  have d: "dispatch_rows ?g ex_bot ''cadairable thing''
             (filter (\<lambda>r. nick r = Text ''cadair'') (table ex_world)) ex_world =
           (Inr (), ex_world\<lparr>calls := [Send_message (Text ''usertoken'') ''cadairable thing'']\<rparr>)"
    by code_simp
  have s: "lower ''cadairable thing'' = [] @ lower ''cadair'' @ ''able thing''" by code_simp
  then have e: "\<exists>ps ss. lower ''cadairable thing'' = ps @ lower ''cadair'' @ ss" by blast
  note th = mention_is_substring [OF k p pl]
  from th e have m1: "mentions ''cadair'' ''cadairable thing''" by blast
  from th have "nick_detect ?g ex_bot ''cadairable thing'' ex_world =
           (if \<exists>ps ss. lower ''cadairable thing'' = ps @ lower ''cadair'' @ ss
            then (case dispatch_rows ?g ex_bot ''cadairable thing''
                         (filter (\<lambda>r. nick r = Text ''cadair'') (table ex_world)) ex_world of
                    (Inl e, w') \<Rightarrow> (Inl e, w')
                  | (Inr u, w') \<Rightarrow> nick_loop ?g ex_bot ''cadairable thing'' [] w')
            else nick_loop ?g ex_bot ''cadairable thing'' [] ex_world)"
    by (rule conjunct2 [OF conjunct2 [OF conjunct2]])
  then have nd: "nick_detect ?g ex_bot ''cadairable thing'' ex_world =
      (Inr (), ex_world\<lparr>calls := [Send_message (Text ''usertoken'') ''cadairable thing'']\<rparr>)"
    by (simp only: e if_True d prod.case sum.case nick_loop.simps)
  show ?thesis
    by (intro conjI) (fact k p pl m1 m2 nd)+
qed

subsection \<open>An exception of a delivery\<close>

text \<open>
  Claim C2 says that a delivery that fails is caught and that the other matching rows
  are still dispatched.  The loops have no handler.  Two rows for ``bob'', both by
  email, and a first library call that raises while later ones would return: the
  listener ends with that exception after one call, and the second row is never
  dispatched.
\<close>

theorem failure_aborts_counterexample:
  "nick_detect (import_globals True) ex_flaky_bot ''hi bob'' ex_bob_world =
     (Inl SendError,
      ex_bob_world\<lparr>calls := [Sendmail ''willie@example.com'' [''bob@example.com'']
         \<lparr>subject = ''[willie] hi bob...'', sender_from = ''willie@example.com'',
          recipient_to = ''bob@example.com'', body = ''hi bob''\<rparr>]\<rparr>)"
  by code_simp

text \<open>
  Claim C2, as amended.  A delivery that raises is not caught: when the dispatch of a
  matching row raises, \<open>nick_detect\<close> ends with that exception in the world the
  failing call has left.  The rows that come after it and the nicks listed after its
  nick are not dispatched for this line; the calls made before it stay made.
\<close>

theorem failure_leaves_the_loops:
  assumes k: "keys_nick (table w) = pre @ Text n # post"
      and p: "nick_loop g b m pre w = (Inr (), w1)"
      and mn: "mentions n m"
      and sel: "select_nick b (table w1) n = Inr (rs1 @ r # rs2)"
      and d1: "dispatch_rows g b m rs1 w1 = (Inr (), w2)"
      and d2: "dispatch g b m r w2 = (Inl e, w3)"
  shows "nick_detect g b m w = (Inl e, w3)"
proof -
  have "dispatch_rows g b m (rs1 @ r # rs2) w1 = (Inl e, w3)"
    using d1 d2 by (simp add: dispatch_rows_append)
  then have "nick_loop g b m (Text n # post) w1 = (Inl e, w3)"
    using mn sel by simp
  then show ?thesis
    using k p by (simp add: nick_detect_def nick_loop_append)
qed

text \<open>The theorem at the two rows for ``bob'' and the first call that raises.\<close>

theorem failure_leaves_the_loops_witness:
  "nick_detect (import_globals True) ex_flaky_bot ''hi bob'' ex_bob_world =
     (Inl SendError, snd (dispatch (import_globals True) ex_flaky_bot ''hi bob''
         \<lparr>pkey = 1, nick = Text ''bob'', service = Text ''email'',
          parameter = Text ''bob@example.com''\<rparr> ex_bob_world))"
proof -
  let ?r1 = "\<lparr>pkey = 1, nick = Text ''bob'', service = Text ''email'',
               parameter = Text ''bob@example.com''\<rparr>"
  let ?r2 = "\<lparr>pkey = 2, nick = Text ''bob'', service = Text ''email'',
               parameter = Text ''bob@example.org''\<rparr>"
  let ?g = "import_globals True"
  have k: "keys_nick (table ex_bob_world) = [] @ Text ''bob'' # [Text ''bob'']" by code_simp
  have p: "nick_loop ?g ex_flaky_bot ''hi bob'' [] ex_bob_world = (Inr (), ex_bob_world)" by simp
  have mn: "mentions ''bob'' ''hi bob''" by code_simp
  have sel: "select_nick ex_flaky_bot (table ex_bob_world) ''bob'' = Inr ([] @ ?r1 # [?r2])"
    by code_simp
  have d1: "dispatch_rows ?g ex_flaky_bot ''hi bob'' [] ex_bob_world = (Inr (), ex_bob_world)"
    by simp
  have d2: "dispatch ?g ex_flaky_bot ''hi bob'' ?r1 ex_bob_world =
     (Inl SendError, snd (dispatch ?g ex_flaky_bot ''hi bob'' ?r1 ex_bob_world))" by code_simp
  from failure_leaves_the_loops [OF k p mn sel d1 d2] show ?thesis .
qed

subsection \<open>New keys\<close>

lemma max_list_Max:
  assumes "ks \<noteq> []"
  shows "max_list ks = Max (set ks)"
proof (cases ks)
  case Nil
  with assms show ?thesis by simp
next
  case (Cons k ks')
  have "Max (set (k # ks')) = fold max ks' k" by (rule Max.set_eq_fold)
  with Cons show ?thesis by simp
qed

lemma get_new_pkey_Max:
  "get_new_pkey tbl = (if tbl = [] then 1 else Max (pkey ` set tbl) + 1)"
  by (simp add: get_new_pkey_def keys_pkey_def max_list_Max)

lemma get_new_pkey_greater: "r \<in> set tbl \<Longrightarrow> pkey r < get_new_pkey tbl"
proof -
  assume r: "r \<in> set tbl"
  then have "tbl \<noteq> []" by auto
  moreover from r have "pkey r \<le> Max (pkey ` set tbl)" by simp
  ultimately show ?thesis by (simp add: get_new_pkey_Max)
qed

lemma get_new_pkey_fresh: "get_new_pkey tbl \<notin> pkey ` set tbl"
  using get_new_pkey_greater by fastforce

lemma plain_ascii: "plain s \<Longrightarrow> ascii s"
  by (auto simp: plain_def ascii_def plain_char_def list_all_iff)

lemma add_entry_plain:
  assumes "plain n" and "plain s" and "plain p"
  shows "add_entry b n s p w =
           (if key64 (get_new_pkey (table w))
            then (Inr (get_new_pkey (table w)),
                  w\<lparr>table := table w @ [\<lparr>pkey = get_new_pkey (table w), nick = Text n,
                                           service = Text s, parameter = Text p\<rparr>],
                    said := said w @
                      [''We will now notify '' @ quoted n @ '' using '' @ quoted s @
                       '' with '' @ quoted p]\<rparr>)
            else (Inl DatabaseError, w))"
  using assms get_new_pkey_fresh [of "table w"] plain_ascii
  by (simp add: add_entry_def add_new_notify_def insert_row_def Let_def)

lemma add_entry_plain_cases:
  assumes "plain n" and "plain s" and "plain p"
  obtains (stored) w1 where "key64 (get_new_pkey (table w))"
      "add_entry b n s p w = (Inr (get_new_pkey (table w)), w1)"
      "table w1 = table w @ [\<lparr>pkey = get_new_pkey (table w), nick = Text n,
                              service = Text s, parameter = Text p\<rparr>]"
    | (refused) "\<not> key64 (get_new_pkey (table w))"
      "add_entry b n s p w = (Inl DatabaseError, w)"
proof (cases "key64 (get_new_pkey (table w))")
  case True
  with add_entry_plain [OF assms, of b w] stored show ?thesis by simp
next
  case False
  with add_entry_plain [OF assms, of b w] refused show ?thesis by simp
qed

lemma add_all_Cons:
  assumes "add_entry b n s p w = (x, w1)"
  shows "fst (add_all b ((n, s, p) # ys) w) = x # fst (add_all b ys w1)"
    and "snd (add_all b ((n, s, p) # ys) w) = snd (add_all b ys w1)"
  using assms by (simp_all split: prod.splits)

text \<open>
  Claim C3 says that over every sequence of additions, from any table, each addition
  is given the largest key plus 1 and no key is given twice.  The fields are pasted
  into the text of the INSERT: after ``alice'', an addition whose parameter carries an
  upsert clause is given the key 2 and leaves the keys 0 and 1 in the table, so the
  next addition is given the key 2 again.  And from a table that holds the key
  \<open>2^63 - 1\<close> the key computed is \<open>2^63\<close>, which the table refuses: the addition
  raises and is given no key.
\<close>

theorem add_assigns_an_id_twice_counterexample:
  "insert_text (table_name ex_upsert_bot) 2 ''bob'' ''email'' ex_upsert =
     ''INSERT INTO notifydb VALUES (2,'bob','email','x'),(2,'y','z','w')ON/**/CONFLICT(pkey)DO/**/UPDATE/**/SET/**/pkey=0--')'' \<and>
   fst (add_all ex_upsert_bot
          [(''alice'', ''email'', ''alice@example.com''),
           (''bob'', ''email'', ex_upsert),
           (''carol'', ''email'', ''carol@example.com'')] ex_empty) = [Inr 1, Inr 2, Inr 2] \<and>
   get_new_pkey (table ex_full_world) = 9223372036854775808 \<and>
   add_entry ex_bot ''bob'' ''email'' ''bob@example.com'' ex_full_world =
     (Inl DatabaseError, ex_full_world)"
  by code_simp

text \<open>
  Claim C3, as amended.  Over every sequence of additions whose fields are plain text,
  from any table: the key computed for an addition is 1 when the table it finds is
  empty and the largest key of that table plus 1 otherwise; the addition writes that
  key when it is a 64-bit value, and raises, writing nothing, otherwise.  The keys
  written are strictly increasing, hence pairwise different, and each is larger than
  every key the first table held.
\<close>

theorem add_all_ids:
  assumes pl: "\<forall>(n, s, p)\<in>set xs. plain n \<and> plain s \<and> plain p"
  shows "fst (add_all b xs w) =
           map (\<lambda>i. let tbl = table (snd (add_all b (take i xs) w));
                        k = (if tbl = [] then 1 else Max (pkey ` set tbl) + 1)
                    in if key64 k then Inr k else Inl DatabaseError) [0..<length xs] \<and>
         sorted_wrt (<) (assigned (fst (add_all b xs w))) \<and>
         distinct (assigned (fst (add_all b xs w))) \<and>
         (\<forall>k\<in>set (assigned (fst (add_all b xs w))). \<forall>r\<in>set (table w). pkey r < k)"
  using pl
proof (induction xs arbitrary: w)
  case Nil
  show ?case by simp
next
  case (Cons x xs)
  obtain n s p where x: "x = (n, s, p)" by (cases x)
  from Cons.prems x have pn: "plain n" "plain s" "plain p"
    and rest: "\<forall>(n, s, p)\<in>set xs. plain n \<and> plain s \<and> plain p" by auto
  let ?k = "get_new_pkey (table w)"
  let ?f = "\<lambda>w xs i. let tbl = table (snd (add_all b (take i xs) w));
                        k = (if tbl = [] then 1 else Max (pkey ` set tbl) + (1::int))
                    in if key64 k then Inr k else Inl DatabaseError"
  have f0: "?f w (x # xs) 0 = (if key64 ?k then Inr ?k else Inl DatabaseError)"
    by (simp add: get_new_pkey_Max Let_def)
  from pn show ?case
  proof (cases rule: add_entry_plain_cases [of n s p w b])
    case (stored w1)
    let ?ys = "fst (add_all b xs w1)"
    from Cons.IH [OF rest, of w1] have
      IH1: "?ys = map (?f w1 xs) [0..<length xs]" and
      IHs: "sorted_wrt (<) (assigned ?ys)" and
      IHd: "distinct (assigned ?ys)" and
      gt: "\<forall>k\<in>set (assigned ?ys). \<forall>r\<in>set (table w1). pkey r < k"
      by blast+
    have fs: "fst (add_all b (x # xs) w) = Inr ?k # ?ys"
      using x add_all_Cons(1) [OF stored(2)] by simp
    have fS: "\<And>i. ?f w (x # xs) (Suc i) = ?f w1 xs i"
      using x add_all_Cons(2) [OF stored(2)] by simp
    have "map (?f w (x # xs)) [0..<length (x # xs)] =
            ?f w (x # xs) 0 # map (\<lambda>i. ?f w (x # xs) (Suc i)) [0..<length xs]"
      by (simp add: map_upt_Suc del: upt_Suc)
    also have "\<dots> = Inr ?k # ?ys"
      using f0 fS IH1 stored(1) by simp
    finally have mp: "fst (add_all b (x # xs) w) = map (?f w (x # xs)) [0..<length (x # xs)]"
      using fs by simp
    have k_lt: "\<forall>k\<in>set (assigned ?ys). ?k < k"
      using gt stored(3) by auto
    have old: "\<forall>k\<in>set (assigned (fst (add_all b (x # xs) w))). \<forall>r\<in>set (table w). pkey r < k"
      using fs gt stored(3) get_new_pkey_greater [of _ "table w"] by auto
    have s1: "sorted_wrt (<) (assigned (fst (add_all b (x # xs) w)))"
      using fs IHs k_lt by simp
    have d1: "distinct (assigned (fst (add_all b (x # xs) w)))"
      using fs IHd k_lt by auto
    show ?thesis
      by (intro conjI) (fact mp s1 d1 old)+
  next
    case refused
    let ?ys = "fst (add_all b xs w)"
    from Cons.IH [OF rest, of w] have
      IH1: "?ys = map (?f w xs) [0..<length xs]" and
      IHs: "sorted_wrt (<) (assigned ?ys)" and
      IHd: "distinct (assigned ?ys)" and
      gt: "\<forall>k\<in>set (assigned ?ys). \<forall>r\<in>set (table w). pkey r < k"
      by blast+
    have fs: "fst (add_all b (x # xs) w) = Inl DatabaseError # ?ys"
      using x add_all_Cons(1) [OF refused(2)] by simp
    have fS: "\<And>i. ?f w (x # xs) (Suc i) = ?f w xs i"
      using x add_all_Cons(2) [OF refused(2)] by simp
    have "map (?f w (x # xs)) [0..<length (x # xs)] =
            ?f w (x # xs) 0 # map (\<lambda>i. ?f w (x # xs) (Suc i)) [0..<length xs]"
      by (simp add: map_upt_Suc del: upt_Suc)
    also have "\<dots> = Inl DatabaseError # ?ys"
      using f0 fS IH1 refused(1) by simp
    finally have mp: "fst (add_all b (x # xs) w) = map (?f w (x # xs)) [0..<length (x # xs)]"
      using fs by simp
    have old: "\<forall>k\<in>set (assigned (fst (add_all b (x # xs) w))). \<forall>r\<in>set (table w). pkey r < k"
      using fs gt by simp
    have s1: "sorted_wrt (<) (assigned (fst (add_all b (x # xs) w)))"
      using fs IHs by simp
    have d1: "distinct (assigned (fst (add_all b (x # xs) w)))"
      using fs IHd by simp
    show ?thesis
      by (intro conjI) (fact mp s1 d1 old)+
  qed
qed

text \<open>The theorem at two additions to a table holding the keys 1 and 2, and at one to an empty table.\<close>

theorem add_all_ids_witness:
  "plain ''alice'' \<and> plain ''pushover'' \<and> plain ''tok1'' \<and> plain ''bob'' \<and> plain ''email'' \<and>
   plain ''bob@example.com'' \<and>
   fst (add_all ex_bot [(''alice'', ''pushover'', ''tok1''), (''bob'', ''email'', ''bob@example.com'')]
          ex_world) = [Inr 3, Inr 4] \<and>
   fst (add_all ex_bot [(''alice'', ''pushover'', ''tok1'')] ex_empty) = [Inr 1] \<and>
   sorted_wrt (<) (assigned (fst (add_all ex_bot
      [(''alice'', ''pushover'', ''tok1''), (''bob'', ''email'', ''bob@example.com'')] ex_world)))"
proof -
  let ?xs = "[(''alice'', ''pushover'', ''tok1''), (''bob'', ''email'', ''bob@example.com'')]"
  have pls: "plain ''alice''" "plain ''pushover''" "plain ''tok1''" "plain ''bob''"
    "plain ''email''" "plain ''bob@example.com''" by code_simp+
  then have pl: "\<forall>(n, s, p)\<in>set ?xs. plain n \<and> plain s \<and> plain p" by simp
  have a: "fst (add_all ex_bot ?xs ex_world) = [Inr 3, Inr 4]" by code_simp
  have c: "fst (add_all ex_bot [(''alice'', ''pushover'', ''tok1'')] ex_empty) = [Inr 1]"
    by code_simp
  from add_all_ids [OF pl, of ex_bot ex_world]
  have so: "sorted_wrt (<) (assigned (fst (add_all ex_bot ?xs ex_world)))" by blast
  show ?thesis
    by (intro conjI) (fact pls a c so)+
qed

subsection \<open>Removal\<close>

lemma show_row_text:
  assumes "nick r = Text n" and "service r = Text s" and "parameter r = Text p"
      and "ascii n" and "ascii s" and "ascii p"
  shows "show_row r = Inr (str_int (pkey r) @ '' | '' @ n @ '' | '' @ s @ '' | '' @ p)"
  using assms by (simp add: show_row_def str_cell_def)

lemma remove_rows_text:
  assumes "\<forall>r\<in>set rs. nick r = Text n \<and> service r = Text s \<and> parameter r = Text p"
      and "ascii n" and "ascii s" and "ascii p"
  shows "fst (remove_rows rs w) = Inr () \<and>
         table (snd (remove_rows rs w)) = filter (\<lambda>r. pkey r \<notin> pkey ` set rs) (table w) \<and>
         said (snd (remove_rows rs w)) =
           said w @ map (\<lambda>r. ''Removing '' @ str_int (pkey r) @ '' | '' @ n @ '' | '' @ s @
                               '' | '' @ p) rs \<and>
         calls (snd (remove_rows rs w)) = calls w"
  using assms(1)
proof (induction rs arbitrary: w)
  case Nil
  show ?case by simp
next
  case (Cons r rs)
  from Cons.prems have r: "nick r = Text n" "service r = Text s" "parameter r = Text p"
    and rs: "\<forall>r\<in>set rs. nick r = Text n \<and> service r = Text s \<and> parameter r = Text p"
    by simp_all
  let ?line = "str_int (pkey r) @ '' | '' @ n @ '' | '' @ s @ '' | '' @ p"
  let ?w1 = "w\<lparr>said := said w @ [''Removing '' @ ?line],
              table := delete_pkey (table w) (pkey r)\<rparr>"
  have step: "remove_rows (r # rs) w = remove_rows rs ?w1"
    using show_row_text [OF r assms(2-4)] by simp
  have flt: "filter (\<lambda>x. pkey x \<notin> pkey ` set rs) (delete_pkey (table w) (pkey r)) =
             filter (\<lambda>x. pkey x \<notin> pkey ` set (r # rs)) (table w)"
    by (auto simp: delete_pkey_def intro: filter_cong)
  from Cons.IH [OF rs, of ?w1] step flt show ?case by simp
qed

lemma distinct_pkey_mem:
  assumes "distinct (map pkey tbl)" and "r \<in> set tbl"
  shows "pkey r \<in> pkey ` set (filter P tbl) \<longleftrightarrow> P r"
proof
  assume "pkey r \<in> pkey ` set (filter P tbl)"
  then obtain r' where r': "r' \<in> set tbl" "P r'" "pkey r' = pkey r" by auto
  from assms(1) have "inj_on pkey (set tbl)" by (simp add: distinct_map)
  with r' assms(2) have "r' = r" by (auto dest: inj_onD)
  with r' show "P r" by simp
next
  assume "P r"
  with assms(2) show "pkey r \<in> pkey ` set (filter P tbl)" by auto
qed

lemma remove_entry_plain:
  assumes "plain n" and "plain s" and "plain p"
  shows "fst (remove_entry b n s p w) = Inr () \<and>
         table (snd (remove_entry b n s p w)) =
           filter (\<lambda>r. pkey r \<notin> pkey ` set (filter (\<lambda>r. nick r = Text n \<and> service r = Text s \<and>
                                                       parameter r = Text p) (table w)))
             (table w) \<and>
         said (snd (remove_entry b n s p w)) =
           said w @ map (\<lambda>r. ''Removing '' @ str_int (pkey r) @ '' | '' @ n @ '' | '' @ s @
                               '' | '' @ p)
             (filter (\<lambda>r. nick r = Text n \<and> service r = Text s \<and> parameter r = Text p)
                (table w)) \<and>
         calls (snd (remove_entry b n s p w)) = calls w"
proof -
  let ?rows = "filter (\<lambda>r. nick r = Text n \<and> service r = Text s \<and> parameter r = Text p) (table w)"
  have sel: "select_entry b (table w) n s p = Inr ?rows"
    using assms by (simp add: select_entry_def)
  have all: "\<forall>r\<in>set ?rows. nick r = Text n \<and> service r = Text s \<and> parameter r = Text p"
    by simp
  note rr = remove_rows_text [OF all plain_ascii [OF assms(1)] plain_ascii [OF assms(2)]
      plain_ascii [OF assms(3)], of w]
  obtain x w1 where e: "remove_rows ?rows w = (x, w1)" by (cases "remove_rows ?rows w")
  with rr have x: "x = Inr ()" by simp
  have "remove_entry b n s p w = (Inr (), w1)"
    using sel e x by (simp add: remove_entry_def)
  with rr e show ?thesis by simp
qed

lemma remove_entry_distinct:
  assumes "plain n" and "plain s" and "plain p" and "distinct (map pkey (table w))"
  shows "distinct (map pkey (table (snd (remove_entry b n s p w))))"
  using remove_entry_plain [OF assms(1-3), of b w] assms(4)
  by (simp add: distinct_map_filter)

text \<open>
  Claim C7 says that a removal deletes the rows that match its three fields and leaves
  the others untouched, for every nick, service and parameter.  The fields are pasted
  into the text of the SELECT: with the parameter \<open>x'OR'1'='1\<close> no row matches the three
  fields, the SELECT returns every row, and the loop deletes the rows of ``alice'' and
  ``cadair''.
\<close>

theorem remove_injection_counterexample:
  "filter (\<lambda>r. nick r = Text ''bob'' \<and> service r = Text ''email'' \<and>
                parameter r = Text ex_injection) (table ex_world) = [] \<and>
   select_entry_text (table_name ex_injection_bot) ''bob'' ''email'' ex_injection =
     ''SELECT * FROM notifydb WHERE nick='bob' AND service='email' AND parameter='x'OR'1'='1'' @
     [CHR 0x27] \<and>
   remove_entry ex_injection_bot ''bob'' ''email'' ex_injection ex_world =
     (Inr (),
      \<lparr>table = [], calls = [],
       said = [''Removing 1 | alice | email | alice@example.com'',
               ''Removing 2 | cadair | pushover | usertoken'']\<rparr>)"
  by code_simp

text \<open>
  Claim C7, as amended.  For a nick, a service and a parameter that are plain text, in
  a table whose keys are pairwise different (pkey is its primary key), the removal
  returns normally and deletes exactly the rows with that nick, service and parameter,
  leaving every other row in place and in order; the bot says one line ``Removing ...''
  for each deleted row; and the rows then selected for the nick hold no row with that
  service and parameter.
\<close>

theorem remove_deletes_the_matches:
  assumes pl: "plain n" "plain s" "plain p"
      and di: "distinct (map pkey (table w))"
  shows "fst (remove_entry b n s p w) = Inr () \<and>
         table (snd (remove_entry b n s p w)) =
           filter (\<lambda>r. \<not> (nick r = Text n \<and> service r = Text s \<and> parameter r = Text p))
             (table w) \<and>
         said (snd (remove_entry b n s p w)) =
           said w @ map (\<lambda>r. ''Removing '' @ str_int (pkey r) @ '' | '' @ n @ '' | '' @ s @
                               '' | '' @ p)
             (filter (\<lambda>r. nick r = Text n \<and> service r = Text s \<and> parameter r = Text p)
                (table w)) \<and>
         calls (snd (remove_entry b n s p w)) = calls w \<and>
         (\<exists>rows. select_nick b (table (snd (remove_entry b n s p w))) n = Inr rows \<and>
            (\<forall>r\<in>set rows. \<not> (service r = Text s \<and> parameter r = Text p)))"
proof -
  let ?P = "\<lambda>r. nick r = Text n \<and> service r = Text s \<and> parameter r = Text p"
  note re = remove_entry_plain [OF pl, of b w]
  have "\<And>r. r \<in> set (table w) \<Longrightarrow>
          (pkey r \<notin> pkey ` set (filter ?P (table w))) = (\<not> ?P r)"
    using distinct_pkey_mem [OF di, where P = ?P] by simp
  then have "filter (\<lambda>r. pkey r \<notin> pkey ` set (filter ?P (table w))) (table w) =
             filter (\<lambda>r. \<not> ?P r) (table w)"
    by (rule filter_cong [OF refl])
  with re have t: "table (snd (remove_entry b n s p w)) = filter (\<lambda>r. \<not> ?P r) (table w)"
    by (simp only:)
  have ok: "fst (remove_entry b n s p w) = Inr ()" using re by (rule conjunct1)
  have sd: "said (snd (remove_entry b n s p w)) =
              said w @ map (\<lambda>r. ''Removing '' @ str_int (pkey r) @ '' | '' @ n @ '' | '' @ s @
                               '' | '' @ p) (filter ?P (table w))"
    using re by (rule conjunct1 [OF conjunct2 [OF conjunct2]])
  have cl: "calls (snd (remove_entry b n s p w)) = calls w"
    using re by (rule conjunct2 [OF conjunct2 [OF conjunct2]])
  have sn: "select_nick b (table (snd (remove_entry b n s p w))) n =
              Inr (filter (\<lambda>r. nick r = Text n) (filter (\<lambda>r. \<not> ?P r) (table w)))"
    using pl(1) by (simp only: select_nick_def t if_True)
  have "\<forall>r\<in>set (filter (\<lambda>r. nick r = Text n) (filter (\<lambda>r. \<not> ?P r) (table w))).
           \<not> (service r = Text s \<and> parameter r = Text p)"
    by simp
  with sn have nk: "\<exists>rows. select_nick b (table (snd (remove_entry b n s p w))) n = Inr rows \<and>
            (\<forall>r\<in>set rows. \<not> (service r = Text s \<and> parameter r = Text p))"
    by blast
  show ?thesis
    by (intro conjI) (fact ok t sd cl nk)+
qed

text \<open>The theorem at the two rows for ``bob'': the second is removed, the first stays.\<close>

theorem remove_deletes_the_matches_witness:
  "plain ''bob'' \<and> plain ''email'' \<and> plain ''bob@example.org'' \<and>
   distinct (map pkey (table ex_bob_world)) \<and>
   remove_entry ex_bot ''bob'' ''email'' ''bob@example.org'' ex_bob_world =
     (Inr (),
      \<lparr>table = [\<lparr>pkey = 1, nick = Text ''bob'', service = Text ''email'',
                  parameter = Text ''bob@example.com''\<rparr>],
       calls = [],
       said = [''Removing 2 | bob | email | bob@example.org'']\<rparr>)"
proof -
  let ?x = "remove_entry ex_bot ''bob'' ''email'' ''bob@example.org'' ex_bob_world"
  have pl: "plain ''bob''" "plain ''email''" "plain ''bob@example.org''" by code_simp+
  have d: "distinct (map pkey (table ex_bob_world))" by code_simp
  have f: "filter (\<lambda>r. \<not> (nick r = Text ''bob'' \<and> service r = Text ''email'' \<and>
                            parameter r = Text ''bob@example.org'')) (table ex_bob_world) =
             [\<lparr>pkey = 1, nick = Text ''bob'', service = Text ''email'',
               parameter = Text ''bob@example.com''\<rparr>]"
    by code_simp
  have s: "said ex_bob_world @
             map (\<lambda>r. ''Removing '' @ str_int (pkey r) @ '' | '' @ ''bob'' @ '' | '' @ ''email'' @
                       '' | '' @ ''bob@example.org'')
               (filter (\<lambda>r. nick r = Text ''bob'' \<and> service r = Text ''email'' \<and>
                             parameter r = Text ''bob@example.org'') (table ex_bob_world)) =
           [''Removing 2 | bob | email | bob@example.org'']"
    by code_simp
  have c: "calls ex_bob_world = []" by code_simp
  note th = remove_deletes_the_matches [OF pl d, of ex_bot]
  have 0: "fst ?x = Inr ()" using th by (rule conjunct1)
  have 1: "table (snd ?x) =
      [\<lparr>pkey = 1, nick = Text ''bob'', service = Text ''email'',
        parameter = Text ''bob@example.com''\<rparr>]"
    using th [THEN conjunct2, THEN conjunct1] f by (rule trans)
  have 2: "said (snd ?x) = [''Removing 2 | bob | email | bob@example.org'']"
    using th [THEN conjunct2, THEN conjunct2, THEN conjunct1] s by (rule trans)
  have 3: "calls (snd ?x) = []"
    using th [THEN conjunct2, THEN conjunct2, THEN conjunct2, THEN conjunct1] c by (rule trans)
  have "snd ?x = \<lparr>table = table (snd ?x), calls = calls (snd ?x), said = said (snd ?x)\<rparr>"
    by (cases "snd ?x") simp
  then have "?x = (fst ?x, \<lparr>table = table (snd ?x), calls = calls (snd ?x), said = said (snd ?x)\<rparr>)"
    by (metis prod.collapse)
  then have r: "?x =
     (Inr (),
      \<lparr>table = [\<lparr>pkey = 1, nick = Text ''bob'', service = Text ''email'',
                  parameter = Text ''bob@example.com''\<rparr>],
       calls = [],
       said = [''Removing 2 | bob | email | bob@example.org'']\<rparr>)"
    by (simp only: 0 1 2 3)
  show ?thesis
    by (intro conjI) (fact pl d r)+
qed

text \<open>
  Claim C8 says that a removal whose three fields match no row returns nothing removed
  and leaves the table unchanged.  With the parameter \<open>x'OR'1'='1\<close> and the nick
  ``carol'', no row of the table matches, and the command deletes both rows of ``bob''.
\<close>

theorem remove_unmatched_injection_counterexample:
  "filter (\<lambda>r. nick r = Text ''carol'' \<and> service r = Text ''email'' \<and>
                parameter r = Text ex_injection) (table ex_bob_world) = [] \<and>
   select_entry_text (table_name ex_injection_bot) ''carol'' ''email'' ex_injection =
     ''SELECT * FROM notifydb WHERE nick='carol' AND service='email' AND parameter='x'OR'1'='1'' @
     [CHR 0x27] \<and>
   remove_notification ex_injection_bot
     \<lparr>sender = ''Cadair'', admin = True, group2 = Some (''carol email '' @ ex_injection)\<rparr>
     ex_bob_world =
     (Inr (),
      \<lparr>table = [], calls = [],
       said = [''Removing 1 | bob | email | bob@example.com'',
               ''Removing 2 | bob | email | bob@example.org'']\<rparr>)"
  by code_simp

text \<open>
  Claim C8, as amended.  Removing a nick, a service and a parameter that are plain text
  and that no row matches is not an error: the command, given by an admin in a private
  message, returns normally, the bot says nothing, and the world (the table with it)
  is what it was.
\<close>

theorem remove_without_match:
  assumes pl: "plain n" "plain s" "plain p"
      and no: "filter (\<lambda>r. nick r = Text n \<and> service r = Text s \<and> parameter r = Text p)
                 (table w) = []"
      and gd: "\<not> startswith_hash (sender t)" "admin t"
      and ar: "group2 t = Some args" "split_space args = [n, s, p]"
  shows "remove_entry b n s p w = (Inr (), w) \<and> remove_notification b t w = (Inr (), w)"
proof -
  have "select_entry b (table w) n s p = Inr []"
    using pl no by (simp add: select_entry_def)
  then have r: "remove_entry b n s p w = (Inr (), w)"
    by (simp add: remove_entry_def)
  then show ?thesis
    using gd ar by (simp add: remove_notification_def)
qed

text \<open>The theorem at a table that has no row for ``bob''.\<close>

theorem remove_without_match_witness:
  "plain ''bob'' \<and> plain ''email'' \<and> plain ''bob@example.com'' \<and>
   filter (\<lambda>r. nick r = Text ''bob'' \<and> service r = Text ''email'' \<and>
                parameter r = Text ''bob@example.com'') (table ex_world) = [] \<and>
   split_space ''bob email bob@example.com'' = [''bob'', ''email'', ''bob@example.com''] \<and>
   remove_notification ex_bot \<lparr>sender = ''Cadair'', admin = True,
                         group2 = Some ''bob email bob@example.com''\<rparr> ex_world = (Inr (), ex_world)"
proof -
  let ?t = "\<lparr>sender = ''Cadair'', admin = True, group2 = Some ''bob email bob@example.com''\<rparr>"
  have pl: "plain ''bob''" "plain ''email''" "plain ''bob@example.com''" by code_simp+
  have a: "filter (\<lambda>r. nick r = Text ''bob'' \<and> service r = Text ''email'' \<and>
                parameter r = Text ''bob@example.com'') (table ex_world) = []" by code_simp
  have g: "\<not> startswith_hash (sender ?t)" by code_simp
  have c: "admin ?t" by simp
  have d: "group2 ?t = Some ''bob email bob@example.com''" by simp
  have e: "split_space ''bob email bob@example.com'' = [''bob'', ''email'', ''bob@example.com'']"
    by code_simp
  from remove_without_match [OF pl a g c d e, of ex_bot]
  have r: "remove_notification ex_bot ?t ex_world = (Inr (), ex_world)" by (rule conjunct2)
  show ?thesis
    by (intro conjI) (fact pl a e r)+
qed

subsection \<open>Keys over additions and removals\<close>

text \<open>
  Claim C4 says that a key is never written twice, also after its row is deleted.  The
  new key is computed from the rows that are in the table: after two additions and
  the removal of the second row, the next addition writes the key 2 again.
\<close>

theorem deleted_id_assigned_again_counterexample:
  "fst (run ex_bot [Add ''alice'' ''email'' ''alice@example.com'',
             Add ''bob'' ''email'' ''bob@example.com'',
             Remove ''bob'' ''email'' ''bob@example.com'',
             Add ''carol'' ''pushover'' ''tok3''] ex_empty) = [Inr 1, Inr 2, Inr 2]"
  by code_simp

lemma run_Add:
  assumes "add_entry b n s p w = (x, w1)"
  shows "snd (run b (Add n s p # cs) w) = snd (run b cs w1)"
  using assms by (simp split: prod.splits)

lemma run_distinct:
  assumes "\<forall>c\<in>set cs. plain_command c" and "distinct (map pkey (table w))"
  shows "distinct (map pkey (table (snd (run b cs w))))"
  using assms
proof (induction cs arbitrary: w)
  case Nil
  then show ?case by simp
next
  case (Cons c cs)
  from Cons.prems have rest: "\<forall>c\<in>set cs. plain_command c" by simp
  show ?case
  proof (cases c)
    case (Add n s p)
    with Cons.prems have pl: "plain n" "plain s" "plain p" by simp_all
    from pl show ?thesis
    proof (cases rule: add_entry_plain_cases [of n s p w b])
      case (stored w1)
      have "distinct (map pkey (table w1))"
        using Cons.prems(2) stored(3) get_new_pkey_fresh [of "table w"] by simp
      from Cons.IH [OF rest this] Add run_Add [OF stored(2)] show ?thesis
        by simp
    next
      case refused
      from Cons.IH [OF rest Cons.prems(2)] Add run_Add [OF refused(2)] show ?thesis
        by simp
    qed
  next
    case (Remove n s p)
    with Cons.prems have pl: "plain n" "plain s" "plain p" by simp_all
    from Cons.IH [OF rest remove_entry_distinct [OF pl Cons.prems(2), of b]] Remove
    show ?thesis by simp
  qed
qed

text \<open>
  Claim C4, as amended.  The key computed for an addition is larger than every key in
  the table at that moment, so an addition never writes the key of a row that is
  stored; an addition of plain text writes that key when it is a 64-bit value and
  raises otherwise.  Over every sequence of additions and removals of plain text, from
  a table whose keys are pairwise different, the keys of the stored rows stay pairwise
  different.  (The key of a deleted row can be written again.)
\<close>

theorem stored_ids_stay_distinct:
  "(\<forall>r\<in>set (table w). pkey r < get_new_pkey (table w)) \<and>
   (plain n \<and> plain s \<and> plain p \<longrightarrow>
      fst (add_entry b n s p w) =
        (if key64 (get_new_pkey (table w)) then Inr (get_new_pkey (table w))
         else Inl DatabaseError)) \<and>
   ((\<forall>c\<in>set cs. plain_command c) \<and> distinct (map pkey (table w)) \<longrightarrow>
      distinct (map pkey (table (snd (run b cs w)))))"
proof -
  have a: "plain n \<and> plain s \<and> plain p \<longrightarrow>
      fst (add_entry b n s p w) =
        (if key64 (get_new_pkey (table w)) then Inr (get_new_pkey (table w))
         else Inl DatabaseError)"
    by (simp add: add_entry_plain)
  have r: "(\<forall>c\<in>set cs. plain_command c) \<and> distinct (map pkey (table w)) \<longrightarrow>
      distinct (map pkey (table (snd (run b cs w))))"
    using run_distinct [of cs w b] by blast
  have g: "\<forall>r\<in>set (table w). pkey r < get_new_pkey (table w)"
    using get_new_pkey_greater [of _ "table w"] by blast
  show ?thesis
    by (intro conjI) (fact g a r)+
qed

text \<open>The theorem at an addition, a removal and an addition on the table with the keys 1 and 2.\<close>

theorem stored_ids_stay_distinct_witness:
  "distinct (map pkey (table ex_world)) \<and>
   plain_command (Add ''dave'' ''email'' ''dave@example.com'') \<and>
   plain_command (Remove ''cadair'' ''pushover'' ''usertoken'') \<and>
   plain_command (Add ''erin'' ''email'' ''erin@example.com'') \<and>
   fst (add_entry ex_bot ''dave'' ''email'' ''dave@example.com'' ex_world) = Inr 3 \<and>
   distinct (map pkey (table (snd (run ex_bot [Add ''dave'' ''email'' ''dave@example.com'',
                                        Remove ''cadair'' ''pushover'' ''usertoken'',
                                        Add ''erin'' ''email'' ''erin@example.com''] ex_world))))"
proof -
  let ?cs = "[Add ''dave'' ''email'' ''dave@example.com'',
              Remove ''cadair'' ''pushover'' ''usertoken'',
              Add ''erin'' ''email'' ''erin@example.com'']"
  have d: "distinct (map pkey (table ex_world))" by code_simp
  have pc: "plain_command (Add ''dave'' ''email'' ''dave@example.com'')"
    "plain_command (Remove ''cadair'' ''pushover'' ''usertoken'')"
    "plain_command (Add ''erin'' ''email'' ''erin@example.com'')" by code_simp+
  then have all: "\<forall>c\<in>set ?cs. plain_command c" by simp
  have pl: "plain ''dave'' \<and> plain ''email'' \<and> plain ''dave@example.com''"
    using pc(1) by simp
  have k: "key64 (get_new_pkey (table ex_world))" "get_new_pkey (table ex_world) = 3"
    by code_simp+
  note th = stored_ids_stay_distinct [of ex_world "''dave''" "''email''" "''dave@example.com''"
      ex_bot ?cs]
  from th pl k have a: "fst (add_entry ex_bot ''dave'' ''email'' ''dave@example.com'' ex_world) = Inr 3"
    by simp
  from th all d have r: "distinct (map pkey (table (snd (run ex_bot ?cs ex_world))))"
    by blast
  show ?thesis
    by (intro conjI) (fact d pc a r)+
qed

subsection \<open>Services the dispatcher does not know\<close>

lemma dispatch_unknown: "SERVICES (service r) = None \<Longrightarrow> dispatch g b m r w = (Inr (), w)"
  by (simp add: dispatch_def)

text \<open>
  Claim C5 says that a row with an unknown service is accepted and stored by an
  addition, and that with one known and one unknown row for a nick a line that mentions
  the nick makes exactly one delivery.  The nick is listed once for each of its rows,
  and its rows are dispatched for each entry of the listing: the email is sent twice.
  And an addition to a table that holds the key \<open>2^63 - 1\<close> raises and stores nothing,
  whatever the service.
\<close>

theorem known_delivery_twice_counterexample:
  "SERVICES (Text ''sms'') = None \<and>
   keys_nick (table ex_mixed_world) = [Text ''bob'', Text ''bob''] \<and>
   nick_detect (import_globals True) ex_bot ''bob check this out'' ex_mixed_world =
     (Inr (), ex_mixed_world\<lparr>calls :=
        [Sendmail ''willie@example.com'' [''bob@example.com'']
           \<lparr>subject = ''[willie] bob check this out...'', sender_from = ''willie@example.com'',
            recipient_to = ''bob@example.com'', body = ''bob check this out''\<rparr>,
         Sendmail ''willie@example.com'' [''bob@example.com'']
           \<lparr>subject = ''[willie] bob check this out...'', sender_from = ''willie@example.com'',
            recipient_to = ''bob@example.com'', body = ''bob check this out''\<rparr>]\<rparr>) \<and>
   add_entry ex_bot ''bob'' ''sms'' ''sms-gateway'' ex_full_world =
     (Inl DatabaseError, ex_full_world)"
  by code_simp

text \<open>
  Claim C5, as amended.  The dispatch of a row whose service is not a key of
  \<open>SERVICES\<close> does nothing and raises nothing: among the rows dispatched for a nick,
  such a row makes no library call and no exception, and the other rows are dispatched
  as they are without it.  An addition of plain text with such a service is accepted,
  and its row stored, whenever the new key is a 64-bit value.  (How often the row with
  the known service is delivered to is not part of the amended claim.)
\<close>

theorem unknown_service_is_inert:
  assumes un: "SERVICES (service r) = None"
  shows "dispatch g b m r w = (Inr (), w) \<and>
         dispatch_rows g b m (rs1 @ r # rs2) w = dispatch_rows g b m (rs1 @ rs2) w \<and>
         (plain n \<and> plain s \<and> plain p \<and> SERVICES (Text s) = None \<and>
          key64 (get_new_pkey (table w0)) \<longrightarrow>
            (\<exists>w1. add_entry b n s p w0 = (Inr (get_new_pkey (table w0)), w1) \<and>
                  table w1 = table w0 @ [\<lparr>pkey = get_new_pkey (table w0), nick = Text n,
                                           service = Text s, parameter = Text p\<rparr>]))"
proof -
  have d: "\<And>w. dispatch g b m r w = (Inr (), w)"
    using un by (rule dispatch_unknown)
  have skip: "dispatch_rows g b m (r # rs2) w' = dispatch_rows g b m rs2 w'" for w'
    by (simp add: d)
  have rows: "dispatch_rows g b m (rs1 @ r # rs2) w = dispatch_rows g b m (rs1 @ rs2) w"
    by (simp only: dispatch_rows_append skip)
  have a: "plain n \<and> plain s \<and> plain p \<and> SERVICES (Text s) = None \<and>
          key64 (get_new_pkey (table w0)) \<longrightarrow>
            (\<exists>w1. add_entry b n s p w0 = (Inr (get_new_pkey (table w0)), w1) \<and>
                  table w1 = table w0 @ [\<lparr>pkey = get_new_pkey (table w0), nick = Text n,
                                           service = Text s, parameter = Text p\<rparr>])"
    by (simp add: add_entry_plain)
  show ?thesis
    by (intro conjI) (fact d rows a)+
qed

text \<open>The theorem at an ``sms'' row for ``bob'', dispatched and added.\<close>

theorem unknown_service_is_inert_witness:
  "SERVICES (Text ''sms'') = None \<and>
   plain ''bob'' \<and> plain ''sms'' \<and> plain ''sms-gateway'' \<and>
   key64 (get_new_pkey (table ex_one_world)) \<and>
   dispatch (import_globals True) ex_bot ''bob check this out''
     \<lparr>pkey = 2, nick = Text ''bob'', service = Text ''sms'', parameter = Text ''sms-gateway''\<rparr>
     ex_mixed_world = (Inr (), ex_mixed_world) \<and>
   fst (add_entry ex_bot ''bob'' ''sms'' ''sms-gateway'' ex_one_world) = Inr 2 \<and>
   table (snd (add_entry ex_bot ''bob'' ''sms'' ''sms-gateway'' ex_one_world)) =
     table ex_mixed_world"
proof -
  let ?r2 = "\<lparr>pkey = 2, nick = Text ''bob'', service = Text ''sms'',
               parameter = Text ''sms-gateway''\<rparr>"
  have un: "SERVICES (service ?r2) = None" by code_simp
  have un': "SERVICES (Text ''sms'') = None" by code_simp
  have pl: "plain ''bob''" "plain ''sms''" "plain ''sms-gateway''" by code_simp+
  have k: "key64 (get_new_pkey (table ex_one_world))" by code_simp
  have k2: "get_new_pkey (table ex_one_world) = 2" by code_simp
  have t: "table ex_one_world @ [\<lparr>pkey = 2, nick = Text ''bob'', service = Text ''sms'',
               parameter = Text ''sms-gateway''\<rparr>] = table ex_mixed_world" by code_simp
  note th = unknown_service_is_inert [OF un, of "import_globals True" ex_bot
      "''bob check this out''" ex_mixed_world "[]" "[]" "''bob''" "''sms''" "''sms-gateway''"
      ex_one_world]
  from th have d: "dispatch (import_globals True) ex_bot ''bob check this out'' ?r2
      ex_mixed_world = (Inr (), ex_mixed_world)" by (rule conjunct1)
  from th pl un' k obtain w1 where
    a: "add_entry ex_bot ''bob'' ''sms'' ''sms-gateway'' ex_one_world =
          (Inr (get_new_pkey (table ex_one_world)), w1)" and
    b: "table w1 = table ex_one_world @ [\<lparr>pkey = get_new_pkey (table ex_one_world),
          nick = Text ''bob'', service = Text ''sms'', parameter = Text ''sms-gateway''\<rparr>]"
    by blast
  from a k2 have f: "fst (add_entry ex_bot ''bob'' ''sms'' ''sms-gateway'' ex_one_world) = Inr 2"
    by simp
  from a b k2 t have s: "table (snd (add_entry ex_bot ''bob'' ''sms'' ''sms-gateway'' ex_one_world)) =
     table ex_mixed_world" by simp
  show ?thesis
    by (intro conjI) (fact un' pl k d f s)+
qed

subsection \<open>A service that is not configured\<close>

text \<open>
  Claim C6 says that a capability whose configuration is absent is unavailable and that
  dispatch to it does nothing and never raises.  Without an application token the
  module only clears its flag \<open>PUSHOVER\<close>, which \<open>notify_pushover\<close> does not read:
  the send is attempted all the same, an exception of the library call is raised to the
  listener, and with the library missing the listener ends with NameError.
\<close>

theorem unconfigured_pushover_counterexample:
  "PUSHOVER (module_setup ex_unconfigured_bot (import_globals True)) = False \<and>
   dispatch (module_setup ex_unconfigured_bot (import_globals True)) ex_unconfigured_bot
       ''hi cadair''
       \<lparr>pkey = 2, nick = Text ''cadair'', service = Text ''pushover'',
        parameter = Text ''usertoken''\<rparr> ex_world =
     (Inr (), ex_world\<lparr>calls := [Send_message (Text ''usertoken'') ''hi cadair'']\<rparr>) \<and>
   dispatch (module_setup ex_unconfigured_bot (import_globals True))
       (ex_unconfigured_bot\<lparr>call_ok := (\<lambda>h c. False)\<rparr>)
       ''hi cadair''
       \<lparr>pkey = 2, nick = Text ''cadair'', service = Text ''pushover'',
        parameter = Text ''usertoken''\<rparr> ex_world =
     (Inl SendError, ex_world\<lparr>calls := [Send_message (Text ''usertoken'') ''hi cadair'']\<rparr>) \<and>
   nick_detect (module_setup ex_unconfigured_bot (import_globals False)) ex_unconfigured_bot
       ''hi cadair'' ex_world = (Inl NameError, ex_world)"
  by code_simp

text \<open>
  Claim C6, as amended.  Absent configuration takes no service out of the dispatcher:
  whatever the module's start has done to the flag, ``pushover'' is a key of
  \<open>SERVICES\<close>, and the dispatch of a row that names it is never a silent no-op.  It
  raises when the pushover library could not be imported, and it never returns normally
  with the world unchanged.
\<close>

theorem pushover_stays_in_services:
  assumes "service r = Text ''pushover''"
  shows "SERVICES (service r) = Some notify_pushover \<and>
         (\<not> pushover_mod g0 \<longrightarrow> (\<exists>e. dispatch (module_setup b g0) b m r w = (Inl e, w))) \<and>
         dispatch (module_setup b g0) b m r w \<noteq> (Inr (), w)"
proof -
  have pm: "pushover_mod (module_setup b g0) = pushover_mod g0"
    by (simp add: module_setup_def)
  have d: "dispatch (module_setup b g0) b m r w = notify_pushover (module_setup b g0) b r m w"
    using assms by (simp add: dispatch_def SERVICES_def)
  have "calls (snd (library_call b c w)) \<noteq> calls w" for c
    by (simp add: library_call_def)
  then have "library_call b c w \<noteq> (x, w)" for c x
    by (metis snd_conv)
  then have "notify_pushover (module_setup b g0) b r m w \<noteq> (Inr (), w)"
    by (simp add: notify_pushover_def)
  then show ?thesis
    using assms d pm by (simp add: SERVICES_def notify_pushover_def)
qed

text \<open>The theorem at a Pushover row, with the library missing and no application token.\<close>

theorem pushover_stays_in_services_witness:
  "service \<lparr>pkey = 2, nick = Text ''cadair'', service = Text ''pushover'',
            parameter = Text ''usertoken''\<rparr> = Text ''pushover'' \<and>
   \<not> pushover_mod (import_globals False) \<and>
   (\<exists>e. dispatch (module_setup ex_unconfigured_bot (import_globals False)) ex_unconfigured_bot
       ''hi cadair''
       \<lparr>pkey = 2, nick = Text ''cadair'', service = Text ''pushover'',
        parameter = Text ''usertoken''\<rparr> ex_world =
     (Inl e, ex_world))"
proof -
  let ?r = "\<lparr>pkey = 2, nick = Text ''cadair'', service = Text ''pushover'',
              parameter = Text ''usertoken''\<rparr>"
  have s: "service ?r = Text ''pushover''" by simp
  have n: "\<not> pushover_mod (import_globals False)" by (simp add: import_globals_def)
  from pushover_stays_in_services [OF s, of "import_globals False" ex_unconfigured_bot
         "''hi cadair''" ex_world] n
  have "\<exists>e. dispatch (module_setup ex_unconfigured_bot (import_globals False)) ex_unconfigured_bot
       ''hi cadair'' ?r ex_world = (Inl e, ex_world)" by blast
  with s n show ?thesis by (intro conjI)
qed

subsection \<open>The email that is sent\<close>



end
